theory Spec2Isabelle
  imports Main "HOL-Library.Sublist"
begin

section \<open>Data model of \<^verbatim>\<open>Scheduler.hh\<close>\<close>

text \<open>
  Modelled from the spec: \<^verbatim>\<open>EmuTime.hh\<close> is not among the sources. The spec (section 3 and
  the glossary) describes an instant as an integer tick count with a total order; the
  scheduler only compares instants, so a natural number stands for \<^verbatim>\<open>EmuTime\<close>.
\<close>

type_synonym EmuTime = nat

text \<open>
  A \<^verbatim>\<open>Schedulable*\<close> and the \<^verbatim>\<open>MSXCPU*\<close> are non-owning pointers; the scheduler only
  stores and compares them, so an address stands for each (the null pointer is \<open>None\<close>).
\<close>

type_synonym Schedulable = nat

type_synonym MSXCPU = nat

text \<open>The private class \<^verbatim>\<open>SynchronizationPoint\<close>; the getters are the field selectors.\<close>

record SynchronizationPoint =
  timeStamp :: EmuTime
  device :: Schedulable
  userData :: int

text \<open>The data members of \<^verbatim>\<open>class Scheduler\<close>, in declaration order.\<close>

record Scheduler =
  syncPoints :: "SynchronizationPoint list"
  scheduleTime :: EmuTime
  cpu :: "MSXCPU option"
  scheduleInProgress :: bool

text \<open>
  What a device observes is the sequence of its \<^verbatim>\<open>executeUntil\<close> invocations. The trace
  \<open>executed\<close> is a ghost field that records when the callback of a point is entered and
  when it returns; no operation of the scheduler reads it.
\<close>

datatype event = Begin SynchronizationPoint | End SynchronizationPoint

record machine = Scheduler +
  executed :: "event list"

text \<open>
  Everything that stops the program instead of returning: reading \<^verbatim>\<open>front()\<close> of an empty
  vector (undefined behaviour in C++), a failed \<^verbatim>\<open>assert\<close>, and, for the model only, a loop
  that has used up its fuel.
\<close>

datatype fault = UndefinedFront | AssertionFailed | OutOfFuel

section \<open>The inline members of \<^verbatim>\<open>Scheduler.hh\<close>\<close>

definition setCPU :: "MSXCPU option \<Rightarrow> 'a Scheduler_scheme \<Rightarrow> 'a Scheduler_scheme" where
  "setCPU cpu' s = s\<lparr>cpu := cpu'\<rparr>"

text \<open>
  \<^verbatim>\<open>getNext\<close> returns \<^verbatim>\<open>syncPoints.front().getTime()\<close>. It is a \<^verbatim>\<open>const\<close> member: the model
  is a function of the state that returns a value and no state.
\<close>

definition getNext :: "'a Scheduler_scheme \<Rightarrow> fault + EmuTime" where
  "getNext s = (case syncPoints s of [] \<Rightarrow> Inl UndefinedFront | sp # _ \<Rightarrow> Inr (timeStamp sp))"

text \<open>
  \<^verbatim>\<open>schedule\<close> as written in the header, with the out-of-line \<^verbatim>\<open>scheduleHelper\<close> as a
  parameter (\<^verbatim>\<open>unlikely\<close> is a branch-prediction hint and leaves the condition as it is):
  \<^verbatim>\<open>
  if (unlikely(limit >= getNext())) { scheduleHelper(limit); }
  scheduleTime = limit;
  \<close>
\<close>

definition schedule_with ::
  "(EmuTime \<Rightarrow> 'a Scheduler_scheme \<Rightarrow> fault + 'a Scheduler_scheme) \<Rightarrow>
   EmuTime \<Rightarrow> 'a Scheduler_scheme \<Rightarrow> fault + 'a Scheduler_scheme" where
  "schedule_with scheduleHelper limit s =
     (case getNext s of
        Inl e \<Rightarrow> Inl e
      | Inr next \<Rightarrow>
          (case (if limit \<ge> next then scheduleHelper limit s else Inr s) of
             Inl e \<Rightarrow> Inl e
           | Inr s' \<Rightarrow> Inr (s'\<lparr>scheduleTime := limit\<rparr>)))"

section \<open>The out-of-line members, modelled from the spec\<close>

text \<open>
  Modelled from the spec: the bodies of \<^verbatim>\<open>LessSyncPoint::operator()\<close> (\<^verbatim>\<open>Scheduler.cc\<close>) are
  not among the sources. The header declares the comparison between an instant and a
  point in both argument orders; by the spec the queue is keyed by time, so each compares
  the instant with the time of the point.
\<close>

definition LessSyncPoint :: "EmuTime \<Rightarrow> SynchronizationPoint \<Rightarrow> bool" where
  "LessSyncPoint time sp = (time < timeStamp sp)"

definition LessSyncPoint' :: "SynchronizationPoint \<Rightarrow> EmuTime \<Rightarrow> bool" where
  "LessSyncPoint' sp time = (timeStamp sp < time)"

text \<open>
  Modelled from the spec: the body of \<^verbatim>\<open>setSyncPoint\<close> (\<^verbatim>\<open>Scheduler.cc\<close>) is not among the
  sources. By the spec (sections 3 and 4.3) it is a fatal assertion to register a point
  earlier than the current time, and the queue is a sequence ordered by time whose front
  is the earliest point. Where a new point goes among pending points of the same time is
  not fixed by the header, and section 9 of the spec leaves it open. The model puts the
  new point in front of the first pending point that \<open>LessSyncPoint\<close> orders after its
  time; no theorem below says which of two points of the same time fires first.
\<close>

fun insertSyncPoint ::
  "SynchronizationPoint \<Rightarrow> SynchronizationPoint list \<Rightarrow> SynchronizationPoint list" where
  "insertSyncPoint p [] = [p]"
| "insertSyncPoint p (q # qs) =
     (if LessSyncPoint (timeStamp p) q then p # q # qs else q # insertSyncPoint p qs)"

definition setSyncPoint ::
  "EmuTime \<Rightarrow> Schedulable \<Rightarrow> int \<Rightarrow> 'a Scheduler_scheme \<Rightarrow> fault + 'a Scheduler_scheme" where
  "setSyncPoint time dev usrdat s =
     (if time < scheduleTime s then Inl AssertionFailed
      else Inr (s\<lparr>syncPoints :=
                  insertSyncPoint \<lparr>timeStamp = time, device = dev, userData = usrdat\<rparr>
                    (syncPoints s)\<rparr>))"

text \<open>
  Modelled from the spec: the body of \<^verbatim>\<open>removeSyncPoint\<close> (\<^verbatim>\<open>Scheduler.cc\<close>) is not among the
  sources. By the spec (sections 3 and 4.3) it searches the queue linearly and cancels one
  point of the device with the tag; the model takes the first one the search meets.
\<close>

fun eraseFirst :: "('a \<Rightarrow> bool) \<Rightarrow> 'a list \<Rightarrow> 'a list" where
  "eraseFirst P [] = []"
| "eraseFirst P (q # qs) = (if P q then qs else q # eraseFirst P qs)"

definition matches :: "Schedulable \<Rightarrow> int \<Rightarrow> SynchronizationPoint \<Rightarrow> bool" where
  "matches dev usrdat sp = (device sp = dev \<and> userData sp = usrdat)"

definition removeSyncPoint ::
  "Schedulable \<Rightarrow> int \<Rightarrow> 'a Scheduler_scheme \<Rightarrow> 'a Scheduler_scheme" where
  "removeSyncPoint dev usrdat s = s\<lparr>syncPoints := eraseFirst (matches dev usrdat) (syncPoints s)\<rparr>"

text \<open>
  Modelled from the spec: the bodies of \<^verbatim>\<open>FindSchedulable::operator()\<close> and of
  \<^verbatim>\<open>removeSyncPoints\<close> (\<^verbatim>\<open>Scheduler.cc\<close>) are not among the sources. By the spec (section 4.3)
  \<^verbatim>\<open>removeSyncPoints\<close> cancels every point of the device.
\<close>

definition FindSchedulable :: "Schedulable \<Rightarrow> SynchronizationPoint \<Rightarrow> bool" where
  "FindSchedulable schedulable sp = (device sp = schedulable)"

definition removeSyncPoints :: "Schedulable \<Rightarrow> 'a Scheduler_scheme \<Rightarrow> 'a Scheduler_scheme" where
  "removeSyncPoints dev s =
     s\<lparr>syncPoints := filter (\<lambda>sp. \<not> FindSchedulable dev sp) (syncPoints s)\<rparr>"

text \<open>
  Modelled from the spec: \<^verbatim>\<open>Schedulable.hh\<close> and the devices are not among the sources. By
  the spec (section 4.2) the effects of \<^verbatim>\<open>executeUntil\<close> are device-specific; towards the
  scheduler a callback may register points, cancel points and call \<^verbatim>\<open>schedule\<close> again.
  A callback is modelled by the requests it makes, in order; which requests it makes may
  depend on the state it is called in.
\<close>

datatype request =
    SetSyncPoint EmuTime Schedulable int
  | RemoveSyncPoint Schedulable int
  | RemoveSyncPoints Schedulable
  | Schedule EmuTime

type_synonym devices = "machine \<Rightarrow> Schedulable \<Rightarrow> EmuTime \<Rightarrow> int \<Rightarrow> request list"

text \<open>
  The requests are carried out one after the other; a fault ends the program. The
  parameter \<open>sched\<close> is what a nested call of \<^verbatim>\<open>schedule\<close> does.
\<close>

fun request_step ::
  "(EmuTime \<Rightarrow> machine \<Rightarrow> fault + machine) \<Rightarrow> request \<Rightarrow> machine \<Rightarrow> fault + machine" where
  "request_step sched (SetSyncPoint time dev usrdat) w = setSyncPoint time dev usrdat w"
| "request_step sched (RemoveSyncPoint dev usrdat) w = Inr (removeSyncPoint dev usrdat w)"
| "request_step sched (RemoveSyncPoints dev) w = Inr (removeSyncPoints dev w)"
| "request_step sched (Schedule limit) w = sched limit w"

fun perform ::
  "(EmuTime \<Rightarrow> machine \<Rightarrow> fault + machine) \<Rightarrow> request list \<Rightarrow> machine \<Rightarrow> fault + machine" where
  "perform sched [] w = Inr w"
| "perform sched (r # rs) w =
     (case request_step sched r w of Inl e \<Rightarrow> Inl e | Inr w' \<Rightarrow> perform sched rs w')"

text \<open>
  Modelled from the spec: the body of \<^verbatim>\<open>scheduleHelper\<close> (\<^verbatim>\<open>Scheduler.cc\<close>) is not among the
  sources. By the spec (section 4.3) a call that finds the scheduler already draining
  only returns; otherwise the scheduler is draining for the time of the loop. The loop
  takes the earliest point from the queue, sets the current time to the time of the
  point and invokes \<^verbatim>\<open>executeUntil\<close> of its device, until the earliest point is later than
  the limit. Section 4.3 words the end of the loop as "at or beyond the limit"; a point at
  the limit itself is taken here, as section 8 says (inclusive boundary) and as the guard
  of \<^verbatim>\<open>schedule\<close> in the header, which sends that case to \<^verbatim>\<open>scheduleHelper\<close>, requires.
  The earliest point of an empty queue is undefined as for \<^verbatim>\<open>getNext\<close>. A callback may
  register a point for the current instant, so the loop need not end: it runs on fuel,
  one unit for each test of the queue.
\<close>

definition scheduleHelper_with ::
  "(EmuTime \<Rightarrow> machine \<Rightarrow> fault + machine) \<Rightarrow> EmuTime \<Rightarrow> machine \<Rightarrow> fault + machine" where
  "scheduleHelper_with loop limit w =
     (if scheduleInProgress w then Inr w
      else (case loop limit (w\<lparr>scheduleInProgress := True\<rparr>) of
              Inl e \<Rightarrow> Inl e
            | Inr w' \<Rightarrow> Inr (w'\<lparr>scheduleInProgress := False\<rparr>)))"

fun drain :: "devices \<Rightarrow> nat \<Rightarrow> EmuTime \<Rightarrow> machine \<Rightarrow> fault + machine" where
  "drain executeUntil 0 limit w = Inl OutOfFuel"
| "drain executeUntil (Suc fuel) limit w =
     (case syncPoints w of
        [] \<Rightarrow> Inl UndefinedFront
      | sp # rest \<Rightarrow>
          if limit < timeStamp sp then Inr w
          else
            (let w1 = w\<lparr>syncPoints := rest, scheduleTime := timeStamp sp,
                        executed := executed w @ [Begin sp]\<rparr>
             in case perform
                       (schedule_with
                          (scheduleHelper_with (\<lambda>l v. drain executeUntil fuel l v)))
                       (executeUntil w1 (device sp) (timeStamp sp) (userData sp)) w1 of
                  Inl e \<Rightarrow> Inl e
                | Inr w2 \<Rightarrow>
                    drain executeUntil fuel limit (w2\<lparr>executed := executed w2 @ [End sp]\<rparr>)))"

definition scheduleHelper :: "devices \<Rightarrow> nat \<Rightarrow> EmuTime \<Rightarrow> machine \<Rightarrow> fault + machine" where
  "scheduleHelper executeUntil fuel = scheduleHelper_with (drain executeUntil fuel)"

text \<open>The scheduler of the program: \<^verbatim>\<open>schedule\<close> of the header with this helper.\<close>

definition schedule :: "devices \<Rightarrow> nat \<Rightarrow> EmuTime \<Rightarrow> machine \<Rightarrow> fault + machine" where
  "schedule executeUntil fuel = schedule_with (scheduleHelper executeUntil fuel)"

section \<open>Notions used in the statements\<close>




text \<open>A device that makes no request at all.\<close>

definition silent :: devices where
  "silent w dev time usrdat = []"


definition heap_ordered :: "SynchronizationPoint list \<Rightarrow> bool" where
  "heap_ordered q =
     (\<forall>i < length q. 0 < i \<longrightarrow> timeStamp (q ! ((i - 1) div 2)) \<le> timeStamp (q ! i))"









section \<open>Example inputs\<close>

text \<open>
  The scenario of section 8 of the spec: device 2 (B) has a point at 10, device 1 (A) has
  points at 10 (tag 1) and at 30 (tag 2), registered after the point of B; a far-future
  point of device 0 keeps the queue from running empty.
\<close>

definition scenario :: machine where
  "scenario =
     \<lparr>syncPoints = [\<lparr>timeStamp = 10, device = 2, userData = 0\<rparr>,
                    \<lparr>timeStamp = 10, device = 1, userData = 1\<rparr>,
                    \<lparr>timeStamp = 30, device = 1, userData = 2\<rparr>,
                    \<lparr>timeStamp = 1000, device = 0, userData = 0\<rparr>],
      scheduleTime = 0, cpu = None, scheduleInProgress = False, executed = []\<rparr>"


text \<open>A queue that holds the far-future point only, and a heap that is not sorted.\<close>

definition far_only :: machine where
  "far_only =
     \<lparr>syncPoints = [\<lparr>timeStamp = 1000, device = 0, userData = 0\<rparr>],
      scheduleTime = 0, cpu = None, scheduleInProgress = False, executed = []\<rparr>"

definition small_heap :: machine where
  "small_heap =
     \<lparr>syncPoints = [\<lparr>timeStamp = 5, device = 1, userData = 0\<rparr>,
                    \<lparr>timeStamp = 9, device = 2, userData = 0\<rparr>,
                    \<lparr>timeStamp = 7, device = 3, userData = 0\<rparr>],
      scheduleTime = 0, cpu = None, scheduleInProgress = False, executed = []\<rparr>"



section \<open>The fast path\<close>

lemma schedule_fast:
  "syncPoints s = sp # rest \<Longrightarrow> limit < timeStamp sp \<Longrightarrow>
   schedule_with h limit s = Inr (s\<lparr>scheduleTime := limit\<rparr>)"
  by (simp add: schedule_with_def getNext_def)


text \<open>
  C1. When the limit is strictly earlier than the time of every pending point, and so of
  the earliest one, \<^verbatim>\<open>schedule(limit)\<close> returns with the current time equal to the limit,
  with no callback invoked (the trace is as before) and with the queue as it was. This
  holds for every device behaviour and needs no fuel: \<^verbatim>\<open>scheduleHelper\<close> is not reached.
\<close>

theorem schedule_before_earliest_point:
  assumes "syncPoints s \<noteq> []"
    and "\<forall>sp \<in> set (syncPoints s). limit < timeStamp sp"
  shows "\<exists>s'. schedule executeUntil fuel limit s = Inr s' \<and> scheduleTime s' = limit \<and>
              executed s' = executed s \<and> syncPoints s' = syncPoints s \<and>
              cpu s' = cpu s \<and> scheduleInProgress s' = scheduleInProgress s"
proof -
  from assms(1) obtain sp rest where q: "syncPoints s = sp # rest"
    by (cases "syncPoints s") auto
  with assms(2) have "limit < timeStamp sp" by simp
  with q have "schedule executeUntil fuel limit s = Inr (s\<lparr>scheduleTime := limit\<rparr>)"
    unfolding schedule_def by (rule schedule_fast)
  then show ?thesis by simp
qed

theorem schedule_before_earliest_point_witness:
  "syncPoints \<lparr>syncPoints = [\<lparr>timeStamp = 30, device = 1, userData = 2\<rparr>], scheduleTime = 10,
                cpu = None, scheduleInProgress = False, executed = []\<rparr> \<noteq> [] \<and>
   (\<exists>s'. schedule silent 0 25
            \<lparr>syncPoints = [\<lparr>timeStamp = 30, device = 1, userData = 2\<rparr>], scheduleTime = 10,
             cpu = None, scheduleInProgress = False, executed = []\<rparr> = Inr s' \<and>
         scheduleTime s' = 25 \<and> executed s' = [] \<and>
         syncPoints s' = [\<lparr>timeStamp = 30, device = 1, userData = 2\<rparr>])"
  using schedule_before_earliest_point
    [of "\<lparr>syncPoints = [\<lparr>timeStamp = 30, device = 1, userData = 2\<rparr>], scheduleTime = 10,
          cpu = None, scheduleInProgress = False, executed = []\<rparr>" 25 silent 0]
  by auto

section \<open>The operations on the queue\<close>

lemma set_insertSyncPoint: "set (insertSyncPoint p q) = insert p (set q)"
  by (induction q) auto

lemma length_insertSyncPoint: "length (insertSyncPoint p q) = Suc (length q)"
  by (induction q) auto






section \<open>The drain of the queue\<close>


























section \<open>\<^verbatim>\<open>schedule\<close> as the header has it\<close>

text \<open>
  C3, as amended. Let the front of the queue, which \<^verbatim>\<open>getNext\<close> reads, be at time \<open>next\<close>.
  When \<open>next\<close> is strictly beyond the limit, \<^verbatim>\<open>schedule\<close> takes the fast path: whatever
  \<^verbatim>\<open>scheduleHelper\<close> is, the result is the state with the limit as current time, so the
  helper has not run, the queue is untouched and no callback is invoked. When \<open>next\<close> is
  at or before the limit, exact equality included, \<^verbatim>\<open>schedule\<close> runs \<^verbatim>\<open>scheduleHelper\<close>
  and then records the limit.
\<close>

theorem schedule_path_by_front:
  assumes "getNext s = Inr next"
  shows "(limit < next \<longrightarrow> (\<forall>h. schedule_with h limit s = Inr (s\<lparr>scheduleTime := limit\<rparr>))) \<and>
         (next \<le> limit \<longrightarrow>
            (\<forall>h. schedule_with h limit s =
                   (case h limit s of Inl e \<Rightarrow> Inl e | Inr s' \<Rightarrow> Inr (s'\<lparr>scheduleTime := limit\<rparr>))))"
  using assms by (simp add: schedule_with_def)

theorem schedule_path_by_front_witness:
  "schedule_with (scheduleHelper silent 4) 9 scenario = Inr (scenario\<lparr>scheduleTime := 9\<rparr>) \<and>
   schedule_with (scheduleHelper silent 4) 10 scenario =
     (case scheduleHelper silent 4 10 scenario of
        Inl e \<Rightarrow> Inl e | Inr s' \<Rightarrow> Inr (s'\<lparr>scheduleTime := 10\<rparr>))"
proof -
  have g: "getNext scenario = Inr 10" by (simp add: getNext_def scenario_def)
  show ?thesis
    using schedule_path_by_front[OF g, of 9] schedule_path_by_front[OF g, of 10] by simp
qed

text \<open>
  C3 as stated fails when the limit equals the time of the earliest point: in the
  scenario the earliest point is at 10, and \<^verbatim>\<open>schedule(10)\<close> does not merely record the
  limit; it takes both points at 10 from the queue and runs their callbacks.
\<close>

theorem schedule_at_front_time_counterexample:
  "getNext scenario = Inr 10 \<and>
   schedule silent 4 10 scenario \<noteq> Inr (scenario\<lparr>scheduleTime := 10\<rparr>) \<and>
   schedule silent 4 10 scenario =
     Inr \<lparr>syncPoints = [\<lparr>timeStamp = 30, device = 1, userData = 2\<rparr>,
                        \<lparr>timeStamp = 1000, device = 0, userData = 0\<rparr>],
          scheduleTime = 10, cpu = None, scheduleInProgress = False,
          executed = [Begin \<lparr>timeStamp = 10, device = 2, userData = 0\<rparr>,
                      End \<lparr>timeStamp = 10, device = 2, userData = 0\<rparr>,
                      Begin \<lparr>timeStamp = 10, device = 1, userData = 1\<rparr>,
                      End \<lparr>timeStamp = 10, device = 1, userData = 1\<rparr>]\<rparr>"
  by (simp add: scenario_def schedule_def schedule_with_def getNext_def scheduleHelper_def
        scheduleHelper_with_def silent_def eval_nat_numeral)

text \<open>
  C10. Whatever \<^verbatim>\<open>scheduleHelper\<close> does, when \<^verbatim>\<open>schedule(limit)\<close> returns the current time
  is the limit: the assignment follows the helper and has no condition. \<^verbatim>\<open>schedule\<close>
  compares the limit with the front of the queue only, never with the current time, and
  stops only where \<^verbatim>\<open>getNext\<close> or the helper stops; a limit earlier than the time reached
  before is accepted and moves the current time backwards.
\<close>

theorem schedule_sets_time_unconditionally:
  "(schedule_with h limit s = Inr s' \<longrightarrow> scheduleTime s' = limit) \<and>
   (schedule_with h limit s = Inr s' \<and> limit < scheduleTime s \<longrightarrow>
      scheduleTime s' < scheduleTime s) \<and>
   (schedule_with h limit s = Inl e \<longrightarrow> getNext s = Inl e \<or> h limit s = Inl e)"
  by (auto simp: schedule_with_def split: sum.splits if_splits)

theorem schedule_sets_time_unconditionally_witness:
  "schedule_with (scheduleHelper silent 4) 25 (scenario\<lparr>scheduleTime := 50\<rparr>) =
     Inr \<lparr>syncPoints = [\<lparr>timeStamp = 30, device = 1, userData = 2\<rparr>,
                        \<lparr>timeStamp = 1000, device = 0, userData = 0\<rparr>],
          scheduleTime = 25, cpu = None, scheduleInProgress = False,
          executed = [Begin \<lparr>timeStamp = 10, device = 2, userData = 0\<rparr>,
                      End \<lparr>timeStamp = 10, device = 2, userData = 0\<rparr>,
                      Begin \<lparr>timeStamp = 10, device = 1, userData = 1\<rparr>,
                      End \<lparr>timeStamp = 10, device = 1, userData = 1\<rparr>]\<rparr> \<and>
   schedule_with (scheduleHelper silent 4) 5 (scenario\<lparr>scheduleTime := 50\<rparr>) =
     Inr (scenario\<lparr>scheduleTime := 5\<rparr>) \<and>
   scheduleTime (scenario\<lparr>scheduleTime := 5\<rparr>) = 5 \<and>
   scheduleTime (scenario\<lparr>scheduleTime := 50\<rparr>) = 50 \<and>
   schedule_with (scheduleHelper silent 4) 5 (scenario\<lparr>syncPoints := []\<rparr>) = Inl UndefinedFront \<and>
   getNext (scenario\<lparr>syncPoints := []\<rparr>) = Inl UndefinedFront"
proof -
  have empty: "schedule_with (scheduleHelper silent 4) 5 (scenario\<lparr>syncPoints := []\<rparr>) =
     Inl UndefinedFront"
    by (simp add: schedule_with_def getNext_def)
  from schedule_sets_time_unconditionally
         [of "scheduleHelper silent 4" 5 "scenario\<lparr>syncPoints := []\<rparr>" _ UndefinedFront] empty
  have none: "getNext (scenario\<lparr>syncPoints := []\<rparr>) = Inl UndefinedFront"
    by (simp add: getNext_def)
  have slow: "schedule_with (scheduleHelper silent 4) 25 (scenario\<lparr>scheduleTime := 50\<rparr>) =
     Inr \<lparr>syncPoints = [\<lparr>timeStamp = 30, device = 1, userData = 2\<rparr>,
                        \<lparr>timeStamp = 1000, device = 0, userData = 0\<rparr>],
          scheduleTime = 25, cpu = None, scheduleInProgress = False,
          executed = [Begin \<lparr>timeStamp = 10, device = 2, userData = 0\<rparr>,
                      End \<lparr>timeStamp = 10, device = 2, userData = 0\<rparr>,
                      Begin \<lparr>timeStamp = 10, device = 1, userData = 1\<rparr>,
                      End \<lparr>timeStamp = 10, device = 1, userData = 1\<rparr>]\<rparr>"
    by (simp add: scenario_def schedule_with_def getNext_def scheduleHelper_def
          scheduleHelper_with_def silent_def eval_nat_numeral)
  have fast: "schedule_with (scheduleHelper silent 4) 5 (scenario\<lparr>scheduleTime := 50\<rparr>) =
     Inr (scenario\<lparr>scheduleTime := 5\<rparr>)"
    by (simp add: scenario_def schedule_with_def getNext_def)
  from schedule_sets_time_unconditionally
         [of "scheduleHelper silent 4" 5 "scenario\<lparr>scheduleTime := 50\<rparr>"
             "scenario\<lparr>scheduleTime := 5\<rparr>"] fast
  have "scheduleTime (scenario\<lparr>scheduleTime := 5\<rparr>) = 5" by blast
  with slow fast empty none show ?thesis by simp
qed

section \<open>\<^verbatim>\<open>getNext\<close>\<close>

lemma heap_front_least:
  assumes "heap_ordered q" and "i < length q"
  shows "timeStamp (q ! 0) \<le> timeStamp (q ! i)"
  using assms(2)
proof (induction i rule: less_induct)
  case (less i)
  show ?case
  proof (cases "i = 0")
    case True
    then show ?thesis by simp
  next
    case False
    let ?j = "(i - 1) div 2"
    have lt: "?j < i" using False by simp
    then have "timeStamp (q ! 0) \<le> timeStamp (q ! ?j)" using less by simp
    moreover have "timeStamp (q ! ?j) \<le> timeStamp (q ! i)"
      using assms(1) less.prems False by (simp add: heap_ordered_def)
    ultimately show ?thesis by simp
  qed
qed

lemma sorted_heap_ordered:
  "sorted (map timeStamp q) \<Longrightarrow> heap_ordered q"
  unfolding heap_ordered_def
proof (intro allI impI)
  fix i assume s: "sorted (map timeStamp q)" and i: "i < length q" and "0 < i"
  have "(i - 1) div 2 \<le> i" by simp
  with s i have "map timeStamp q ! ((i - 1) div 2) \<le> map timeStamp q ! i"
    by (intro sorted_nth_mono) simp_all
  with i show "timeStamp (q ! ((i - 1) div 2)) \<le> timeStamp (q ! i)" by simp
qed

text \<open>
  C8. On a non-empty queue that is heap-ordered, as the header says of the vector and as
  a sorted queue is, \<^verbatim>\<open>getNext\<close> returns the least time of the pending points. \<^verbatim>\<open>getNext\<close>
  returns a value and no state, so it changes nothing. On the empty queue it reads the
  front of an empty vector: the result is undefined, which the model reports as a fault.
\<close>

theorem getNext_earliest:
  "(syncPoints s \<noteq> [] \<and> heap_ordered (syncPoints s) \<longrightarrow>
      getNext s = Inr (Min (timeStamp ` set (syncPoints s)))) \<and>
   (syncPoints s = [] \<longrightarrow> getNext s = Inl UndefinedFront)"
proof (intro conjI impI)
  assume a: "syncPoints s \<noteq> [] \<and> heap_ordered (syncPoints s)"
  then obtain sp rest where q: "syncPoints s = sp # rest" by (cases "syncPoints s") auto
  have "\<forall>x \<in> set (syncPoints s). timeStamp sp \<le> timeStamp x"
  proof
    fix x assume "x \<in> set (syncPoints s)"
    then obtain i where "i < length (syncPoints s)" "x = syncPoints s ! i"
      by (auto simp: in_set_conv_nth)
    with heap_front_least[of "syncPoints s" i] a q show "timeStamp sp \<le> timeStamp x" by simp
  qed
  then have "Min (timeStamp ` set (syncPoints s)) = timeStamp sp"
    using q by (intro Min_eqI) auto
  with q show "getNext s = Inr (Min (timeStamp ` set (syncPoints s)))" by (simp add: getNext_def)
next
  assume "syncPoints s = []"
  then show "getNext s = Inl UndefinedFront" by (simp add: getNext_def)
qed

theorem getNext_earliest_witness:
  "getNext small_heap = Inr 5 \<and> getNext (small_heap\<lparr>syncPoints := []\<rparr>) = Inl UndefinedFront"
proof -
  have h: "heap_ordered (syncPoints small_heap)"
    by (simp add: heap_ordered_def small_heap_def less_Suc_eq numeral_3_eq_3 nth_Cons')
  have "syncPoints small_heap \<noteq> []" by (simp add: small_heap_def)
  with h getNext_earliest[of small_heap] getNext_earliest[of "small_heap\<lparr>syncPoints := []\<rparr>"]
  show ?thesis by (simp add: small_heap_def)
qed

section \<open>Registration and cancellation\<close>

lemma eraseFirst_split:
  "\<exists>x \<in> set q. P x \<Longrightarrow>
   \<exists>xs x ys. q = xs @ x # ys \<and> P x \<and> eraseFirst P q = xs @ ys"
proof (induction q)
  case Nil
  then show ?case by simp
next
  case (Cons a q)
  show ?case
  proof (cases "P a")
    case True
    then have "a # q = [] @ a # q \<and> P a \<and> eraseFirst P (a # q) = [] @ q" by simp
    then show ?thesis by blast
  next
    case False
    with Cons.prems have "\<exists>x \<in> set q. P x" by auto
    then obtain xs x ys where "q = xs @ x # ys" "P x" "eraseFirst P q = xs @ ys"
      using Cons.IH by blast
    with False have "a # q = (a # xs) @ x # ys \<and> P x \<and> eraseFirst P (a # q) = (a # xs) @ ys"
      by simp
    then show ?thesis by blast
  qed
qed

text \<open>
  C9. When some pending point has the device and the tag, \<^verbatim>\<open>removeSyncPoint\<close> takes one
  such point out of the queue, at one position; the points in front of it and behind it,
  matching or not, stay as they were and in their order, and nothing else of the
  scheduler changes. Which of several matching points goes is not part of the statement.
\<close>

theorem removeSyncPoint_removes_one:
  assumes "\<exists>sp \<in> set (syncPoints s). matches dev usrdat sp"
  shows "\<exists>before sp after.
           syncPoints s = before @ sp # after \<and> matches dev usrdat sp \<and>
           removeSyncPoint dev usrdat s = s\<lparr>syncPoints := before @ after\<rparr>"
proof -
  from eraseFirst_split[OF assms] obtain xs x ys where
    "syncPoints s = xs @ x # ys" "matches dev usrdat x"
    "eraseFirst (matches dev usrdat) (syncPoints s) = xs @ ys" by blast
  then have "syncPoints s = xs @ x # ys \<and> matches dev usrdat x \<and>
             removeSyncPoint dev usrdat s = s\<lparr>syncPoints := xs @ ys\<rparr>"
    by (simp add: removeSyncPoint_def)
  then show ?thesis by blast
qed

theorem removeSyncPoint_removes_one_witness:
  "(\<exists>before sp after.
      syncPoints (far_only\<lparr>syncPoints := [\<lparr>timeStamp = 10, device = 1, userData = 1\<rparr>,
                                          \<lparr>timeStamp = 20, device = 2, userData = 0\<rparr>,
                                          \<lparr>timeStamp = 30, device = 1, userData = 1\<rparr>]\<rparr>) =
        before @ sp # after \<and> matches 1 1 sp \<and>
      removeSyncPoint 1 1
        (far_only\<lparr>syncPoints := [\<lparr>timeStamp = 10, device = 1, userData = 1\<rparr>,
                                 \<lparr>timeStamp = 20, device = 2, userData = 0\<rparr>,
                                 \<lparr>timeStamp = 30, device = 1, userData = 1\<rparr>]\<rparr>) =
        far_only\<lparr>syncPoints := before @ after\<rparr>) \<and>
   removeSyncPoint 1 1
     (far_only\<lparr>syncPoints := [\<lparr>timeStamp = 10, device = 1, userData = 1\<rparr>,
                              \<lparr>timeStamp = 20, device = 2, userData = 0\<rparr>,
                              \<lparr>timeStamp = 30, device = 1, userData = 1\<rparr>]\<rparr>) =
     far_only\<lparr>syncPoints := [\<lparr>timeStamp = 20, device = 2, userData = 0\<rparr>,
                              \<lparr>timeStamp = 30, device = 1, userData = 1\<rparr>]\<rparr>"
proof -
  let ?s = "far_only\<lparr>syncPoints := [\<lparr>timeStamp = 10, device = 1, userData = 1\<rparr>,
                                    \<lparr>timeStamp = 20, device = 2, userData = 0\<rparr>,
                                    \<lparr>timeStamp = 30, device = 1, userData = 1\<rparr>]\<rparr>"
  have h: "\<exists>sp \<in> set (syncPoints ?s). matches 1 1 sp" by (simp add: matches_def)
  have "removeSyncPoint 1 1 ?s =
     far_only\<lparr>syncPoints := [\<lparr>timeStamp = 20, device = 2, userData = 0\<rparr>,
                              \<lparr>timeStamp = 30, device = 1, userData = 1\<rparr>]\<rparr>"
    by (simp add: removeSyncPoint_def matches_def)
  with removeSyncPoint_removes_one[OF h] show ?thesis by simp
qed

text \<open>
  C7. \<^verbatim>\<open>setSyncPoint\<close> with a time earlier than the current time of the scheduler ends in
  the failed assertion, and so does the callback that made the request: none of its
  further requests is carried out and no state is returned to continue from. With a time
  that is not earlier, the assertion does not fire: the call returns, the point is
  pending together with the points that were, and the current time is unchanged.
\<close>

theorem setSyncPoint_precondition:
  "(time < scheduleTime w \<longrightarrow>
      setSyncPoint time dev usrdat w = Inl AssertionFailed \<and>
      perform sched (SetSyncPoint time dev usrdat # rs) w = Inl AssertionFailed) \<and>
   (scheduleTime w \<le> time \<longrightarrow>
      (\<exists>w'. setSyncPoint time dev usrdat w = Inr w' \<and>
            set (syncPoints w') =
              insert \<lparr>timeStamp = time, device = dev, userData = usrdat\<rparr> (set (syncPoints w)) \<and>
            length (syncPoints w') = Suc (length (syncPoints w)) \<and>
            scheduleTime w' = scheduleTime w))"
  by (simp add: setSyncPoint_def set_insertSyncPoint length_insertSyncPoint)

theorem setSyncPoint_precondition_witness:
  "setSyncPoint 5 1 0 (scenario\<lparr>scheduleTime := 10\<rparr>) = Inl AssertionFailed \<and>
   perform (schedule silent 4) [SetSyncPoint 5 1 0, RemoveSyncPoints 1]
     (scenario\<lparr>scheduleTime := 10\<rparr>) = Inl AssertionFailed \<and>
   (\<exists>w'. setSyncPoint 10 1 0 (scenario\<lparr>scheduleTime := 10\<rparr>) = Inr w' \<and>
         set (syncPoints w') =
           insert \<lparr>timeStamp = 10, device = 1, userData = 0\<rparr>
             (set (syncPoints (scenario\<lparr>scheduleTime := 10\<rparr>))) \<and>
         scheduleTime w' = 10)"
  using setSyncPoint_precondition
          [of 5 "scenario\<lparr>scheduleTime := 10\<rparr>" 1 0 "schedule silent 4" "[RemoveSyncPoints 1]"]
        setSyncPoint_precondition
          [of 10 "scenario\<lparr>scheduleTime := 10\<rparr>" 1 0 "schedule silent 4" "[]"]
  by (auto simp: scenario_def)

section \<open>The order of the callbacks\<close>











end
